theory Spec2Isabelle
  imports Main
begin

section \<open>Data model\<close>

text \<open>
  The engine of \<^verbatim>\<open>src/repo_search/search/engine.py\<close> is embedded here:
  \<^verbatim>\<open>SearchEngine.index_repository\<close> with the collaborators it calls.

  \<^verbatim>\<open>RepositoryInfo\<close> is the persisted indexing state of one repository. Its fields are
  the ones the tests construct (\<^verbatim>\<open>tests/test_models.py\<close>). A Python \<^verbatim>\<open>dict\<close> from path
  to content hash is an association list read with \<^const>\<open>map_of\<close>; an optional string is
  \<^typ>\<open>string option\<close>; the time stamp is a number.
\<close>

type_synonym hashes = "(string \<times> string) list"

record RepositoryInfo =
  owner :: string
  name :: string
  url :: string
  last_indexed :: "nat option"
  num_files :: nat
  num_chunks :: nat
  commit_hash :: "string option"
  download_successful :: bool
  chunking_successful :: bool
  embedding_successful :: bool
  file_hashes :: hashes

definition full_name :: "RepositoryInfo \<Rightarrow> string" where
  "full_name ri = owner ri @ ''/'' @ name ri"

text \<open>
  A \<^verbatim>\<open>DocumentChunk\<close>; \<^verbatim>\<open>file_path\<close> is the entry of that name in its metadata, absent
  when the metadata has none.
\<close>

record DocumentChunk =
  chunk_id :: string
  repository :: string
  content :: string
  file_path :: "string option"

text \<open>The exceptions the engine distinguishes: line 245 and line 265 test for a decode error.\<close>

datatype exn = UnicodeDecodeError | Exception string

text \<open>
  Every call the engine makes on a collaborator with an effect is recorded, in order, the
  way the mocks of \<^verbatim>\<open>tests/test_search_engine.py\<close> record their calls.
\<close>

datatype event =
    Mkdtemp
  | FetchContents
  | AddRepository RepositoryInfo
  | DeleteFileChunks string string
  | DeleteRepositoryChunks string
  | ChunkFile string
  | ChunkRepository
  | StoreChunks "DocumentChunk list"
  | Rmtree
  | CleanupWarning

text \<open>
  The world the engine acts on: the table of persisted states, the chunk store, the number of
  scratch directories that exist, and the calls made so far.
\<close>

record world =
  db_repositories :: "string \<rightharpoonup> RepositoryInfo"
  db_chunks :: "DocumentChunk list"
  temp_dirs :: nat
  calls :: "event list"

text \<open>
  What the collaborators answer during one run. The fetcher, the chunker and the file system
  are not part of the engine; each of their answers is a parameter of the run:
  \<^item> \<^verbatim>\<open>repo_fetcher.get_repository_info(repository)\<close>;
  \<^item> \<^verbatim>\<open>repo_fetcher.fetch_repository_contents(repository, temp_dir)\<close>, where the directory
    is \<^const>\<open>None\<close> when the returned \<^verbatim>\<open>repo_dir\<close> is falsy;
  \<^item> \<^verbatim>\<open>repo_fetcher.get_text_files(repo_dir)\<close>, as paths relative to \<^verbatim>\<open>repo_dir\<close>;
  \<^item> \<^verbatim>\<open>file_full_path.exists() and file_full_path.is_file()\<close> and
    \<^verbatim>\<open>repo_fetcher.is_text_file\<close>, by relative path;
  \<^item> \<^verbatim>\<open>chunker.text_chunker.chunk_file\<close>, by relative path;
  \<^item> \<^verbatim>\<open>chunker.chunk_repository\<close>, a generator: the chunks it yields and the exception
    that ends it, if one does;
  \<^item> whether \<^verbatim>\<open>db.store_chunks\<close> (which embeds) and \<^verbatim>\<open>shutil.rmtree\<close> raise;
  \<^item> \<^verbatim>\<open>datetime.datetime.now()\<close>.
\<close>

record env =
  get_repository_info :: "exn + RepositoryInfo"
  fetch_repository_contents :: "exn + (RepositoryInfo \<times> string option)"
  get_text_files :: "string list"
  exists_is_file :: "string \<Rightarrow> bool"
  is_text_file :: "string \<Rightarrow> bool"
  chunk_file :: "string \<Rightarrow> exn + DocumentChunk list"
  chunk_repository :: "DocumentChunk list \<times> exn option"
  store_chunks_raises :: "exn option"
  rmtree_raises :: "exn option"
  now :: nat

section \<open>The persisted store\<close>

definition record_call :: "event \<Rightarrow> world \<Rightarrow> world" where
  "record_call e w = w\<lparr>calls := calls w @ [e]\<rparr>"

text \<open>
  The class \<^verbatim>\<open>ChromaVectorDatabase\<close> (\<^verbatim>\<open>repo_search/database/chroma.py\<close>) is missing from
  the sources. The five operations the engine calls on it follow section 6 of the
  specification, which gives the persisted state store as \<^verbatim>\<open>get(id)\<close>, \<^verbatim>\<open>put(state)\<close>,
  \<^verbatim>\<open>delete_chunks_for_file(id, path)\<close>, \<^verbatim>\<open>delete_all_chunks(id)\<close> and \<^verbatim>\<open>store_chunks(records)\<close>.
  Reading and writing a state and deleting chunks do not raise here; storing chunks, which
  computes the embeddings, may.
\<close>

text \<open>
  Modelled from the spec: \<^verbatim>\<open>ChromaVectorDatabase.get_repository\<close> is missing; it is
  \<^verbatim>\<open>get(id)\<close>, the state stored under the identifier \<^verbatim>\<open>owner/name\<close> or nothing.
\<close>

definition get_repository :: "string \<Rightarrow> world \<Rightarrow> RepositoryInfo option" where
  "get_repository r w = db_repositories w r"

text \<open>
  Modelled from the spec: \<^verbatim>\<open>ChromaVectorDatabase.add_repository\<close> is missing; it is
  \<^verbatim>\<open>put(state)\<close>, an upsert that replaces the whole state of the identifier.
\<close>

definition add_repository :: "RepositoryInfo \<Rightarrow> world \<Rightarrow> world" where
  "add_repository ri w =
     record_call (AddRepository ri)
       (w\<lparr>db_repositories := (db_repositories w)(full_name ri \<mapsto> ri)\<rparr>)"

text \<open>
  Modelled from the spec: \<^verbatim>\<open>ChromaVectorDatabase.delete_file_chunks\<close> is missing; it is
  \<^verbatim>\<open>delete_chunks_for_file(id, path)\<close>, which removes the chunks of that repository that
  reference that file path.
\<close>

definition delete_file_chunks :: "string \<Rightarrow> string \<Rightarrow> world \<Rightarrow> world" where
  "delete_file_chunks r p w =
     record_call (DeleteFileChunks r p)
       (w\<lparr>db_chunks := filter (\<lambda>c. \<not> (repository c = r \<and> file_path c = Some p)) (db_chunks w)\<rparr>)"

text \<open>
  Modelled from the spec: \<^verbatim>\<open>ChromaVectorDatabase.delete_repository_chunks\<close> is missing; it is
  \<^verbatim>\<open>delete_all_chunks(id)\<close>, which removes every chunk of that repository.
\<close>

definition delete_repository_chunks :: "string \<Rightarrow> world \<Rightarrow> world" where
  "delete_repository_chunks r w =
     record_call (DeleteRepositoryChunks r)
       (w\<lparr>db_chunks := filter (\<lambda>c. repository c \<noteq> r) (db_chunks w)\<rparr>)"

text \<open>
  Modelled from the spec: \<^verbatim>\<open>ChromaVectorDatabase.store_chunks\<close> is missing; it is
  \<^verbatim>\<open>store_chunks(records)\<close>, which adds the records to the chunk store, or raises and adds
  none.
\<close>

definition store_chunks :: "env \<Rightarrow> DocumentChunk list \<Rightarrow> world \<Rightarrow> exn option \<times> world" where
  "store_chunks ev cs w =
     (case store_chunks_raises ev of
        Some e \<Rightarrow> (Some e, record_call (StoreChunks cs) w)
      | None \<Rightarrow> (None, record_call (StoreChunks cs) (w\<lparr>db_chunks := db_chunks w @ cs\<rparr>)))"

section \<open>Planning: lines 84 to 149\<close>

record plan =
  need_download :: bool
  need_chunking :: bool
  need_embedding :: bool

text \<open>Python truthiness of an optional string: \<^verbatim>\<open>None\<close> and the empty string are falsy.\<close>

definition truthy :: "string option \<Rightarrow> bool" where
  "truthy s = (case s of None \<Rightarrow> False | Some h \<Rightarrow> h \<noteq> [])"

text \<open>
  Lines 95 to 124: the three \<^verbatim>\<open>need_*\<close> flags start as \<^const>\<open>True\<close>; a later stage is
  looked at only when the earlier one is skipped.
\<close>

definition plan_stages :: "RepositoryInfo \<Rightarrow> bool \<Rightarrow> bool \<Rightarrow> bool \<Rightarrow> plan" where
  "plan_stages existing force_redownload force_rechunk force_reembed =
     (let nd = (if force_redownload then True
                else if download_successful existing then False else True);
          nc = (if \<not> nd then
                  (if force_rechunk then True
                   else if chunking_successful existing then False else True)
                else True);
          ne = (if \<not> nd \<and> \<not> nc then
                  (if force_reembed then True
                   else if embedding_successful existing then False else True)
                else True)
      in \<lparr>need_download = nd, need_chunking = nc, need_embedding = ne\<rparr>)"

datatype prepared = Return RepositoryInfo | Continue plan RepositoryInfo

text \<open>
  Lines 81 to 149. \<^verbatim>\<open>repo_info\<close> starts as the freshly fetched \<^verbatim>\<open>current_repo_info\<close>. With
  the commit hash unchanged nothing of the existing state is copied into it; when the commit
  hash changed (or is unknown, or a refresh is forced) the file hashes, when there are any, and
  the two counters are copied.
\<close>

definition check_existing ::
  "RepositoryInfo option \<Rightarrow> RepositoryInfo \<Rightarrow> bool \<Rightarrow> bool \<Rightarrow> bool \<Rightarrow> bool \<Rightarrow> prepared" where
  "check_existing existing_repo current_repo_info force_refresh force_redownload force_rechunk
       force_reembed =
     (case existing_repo of
        None \<Rightarrow>
          Continue \<lparr>need_download = True, need_chunking = True, need_embedding = True\<rparr>
            current_repo_info
      | Some existing \<Rightarrow>
          if truthy (commit_hash existing)
             \<and> commit_hash existing = commit_hash current_repo_info \<and> \<not> force_refresh
          then
            (let p = plan_stages existing force_redownload force_rechunk force_reembed
             in if \<not> need_download p \<and> \<not> need_chunking p \<and> \<not> need_embedding p
                then Return existing
                else Continue p current_repo_info)
          else
            Continue \<lparr>need_download = True, need_chunking = True, need_embedding = True\<rparr>
              (current_repo_info
                 \<lparr>file_hashes := (if file_hashes existing \<noteq> [] then file_hashes existing
                                  else file_hashes current_repo_info),
                  num_chunks := num_chunks existing,
                  num_files := num_files existing\<rparr>))"

section \<open>Download stage: lines 152 to 208\<close>

text \<open>The keys of a dictionary, each once.\<close>

definition keys :: "hashes \<Rightarrow> string list" where
  "keys d = remdups (map fst d)"

text \<open>
  Lines 169 to 173: a path of the new mapping is added when it is not in the old mapping or its
  old hash differs from its new hash.
\<close>

definition changed_files :: "hashes \<Rightarrow> hashes \<Rightarrow> string list" where
  "changed_files old_file_hashes new_file_hashes =
     filter (\<lambda>p. map_of old_file_hashes p = None \<or> map_of old_file_hashes p \<noteq> map_of new_file_hashes p)
       (keys new_file_hashes)"

text \<open>Lines 176 to 179: a path of the old mapping is added when it is not in the new mapping.\<close>

definition deleted_files :: "hashes \<Rightarrow> hashes \<Rightarrow> string list" where
  "deleted_files old_file_hashes new_file_hashes =
     filter (\<lambda>p. map_of new_file_hashes p = None) (keys old_file_hashes)"

text \<open>
  Lines 162 to 193: \<^verbatim>\<open>files_to_chunk\<close> and \<^verbatim>\<open>files_to_delete\<close>. The test of line 163,
  \<^verbatim>\<open>existing_repo and ... existing_repo.file_hashes\<close>, holds when there is an existing state
  with a non-empty mapping. Otherwise every text file under the downloaded directory is to be
  chunked (none when the directory is falsy) and nothing is to be deleted.
\<close>

definition old_hashes :: "RepositoryInfo option \<Rightarrow> hashes" where
  "old_hashes existing_repo =
     (case existing_repo of None \<Rightarrow> [] | Some existing \<Rightarrow> file_hashes existing)"

definition all_text_files :: "env \<Rightarrow> string option \<Rightarrow> string list \<times> string list" where
  "all_text_files ev repo_dir =
     (if repo_dir \<noteq> None then remdups (get_text_files ev) else [], [])"

definition select_files ::
  "env \<Rightarrow> RepositoryInfo option \<Rightarrow> RepositoryInfo \<Rightarrow> string option \<Rightarrow> string list \<times> string list" where
  "select_files ev existing_repo downloaded_repo_info repo_dir =
     (if old_hashes existing_repo \<noteq> []
      then (changed_files (old_hashes existing_repo) (file_hashes downloaded_repo_info),
            deleted_files (old_hashes existing_repo) (file_hashes downloaded_repo_info))
      else all_text_files ev repo_dir)"

text \<open>
  Lines 182 to 188: \<^verbatim>\<open>need_chunking\<close> is set when there are changed files and no forced
  re-chunk, and whenever there are no previous file hashes.
\<close>

definition chunking_after_download ::
  "RepositoryInfo option \<Rightarrow> string list \<Rightarrow> bool \<Rightarrow> bool \<Rightarrow> bool" where
  "chunking_after_download existing_repo to_chunk force_rechunk need_chunking0 =
     (if old_hashes existing_repo \<noteq> []
      then (if to_chunk \<noteq> [] \<and> \<not> force_rechunk then True else need_chunking0)
      else True)"

text \<open>
  The local variables of the run that the later stages read. \<^verbatim>\<open>files_to_chunk\<close> and
  \<^verbatim>\<open>files_to_delete\<close> are Python sets; each is a list without repetition here, and the order
  of the list stands for the order in which the set is iterated, which Python leaves open.
\<close>

record locals =
  repo_info :: RepositoryInfo
  repo_dir :: "string option"
  temp_dir :: bool
  need_chunking_now :: bool
  files_to_chunk :: "string list"
  files_to_delete :: "string list"

text \<open>
  Lines 152 to 208. The scratch directory is created first. When fetching raises, the state is
  persisted with \<^verbatim>\<open>download_successful = False\<close> and the exception is raised again.
\<close>

definition download_stage ::
  "env \<Rightarrow> RepositoryInfo option \<Rightarrow> bool \<Rightarrow> bool \<Rightarrow> RepositoryInfo \<Rightarrow> world
     \<Rightarrow> (exn + locals) \<times> world" where
  "download_stage ev existing_repo force_rechunk need_chunking0 ri w =
     (let w1 = record_call Mkdtemp (w\<lparr>temp_dirs := temp_dirs w + 1\<rparr>);
          w2 = record_call FetchContents w1
      in case fetch_repository_contents ev of
           Inl e \<Rightarrow>
             (Inl e, add_repository (ri\<lparr>download_successful := False\<rparr>) w2)
         | Inr (downloaded_repo_info, dir) \<Rightarrow>
             (let (to_chunk, to_delete) =
                    select_files ev existing_repo downloaded_repo_info dir;
                  ri' = ri
                    \<lparr>num_files := num_files downloaded_repo_info,
                     download_successful := True,
                     file_hashes := file_hashes downloaded_repo_info\<rparr>
              in (Inr \<lparr>repo_info = ri', repo_dir = dir, temp_dir = True,
                       need_chunking_now =
                         chunking_after_download existing_repo to_chunk force_rechunk
                           need_chunking0,
                       files_to_chunk = to_chunk, files_to_delete = to_delete\<rparr>,
                  add_repository ri' w2)))"

text \<open>Lines 82 to 89: the locals of a run whose download stage is skipped.\<close>

definition no_download :: "bool \<Rightarrow> RepositoryInfo \<Rightarrow> locals" where
  "no_download need_chunking0 ri =
     \<lparr>repo_info = ri, repo_dir = None, temp_dir = False, need_chunking_now = need_chunking0,
      files_to_chunk = [], files_to_delete = []\<rparr>"

text \<open>Line 152: step 1 runs only when a download is needed.\<close>

definition download_if_needed ::
  "env \<Rightarrow> RepositoryInfo option \<Rightarrow> bool \<Rightarrow> plan \<Rightarrow> RepositoryInfo \<Rightarrow> world
     \<Rightarrow> (exn + locals) \<times> world" where
  "download_if_needed ev existing_repo force_rechunk p ri w =
     (if need_download p
      then download_stage ev existing_repo force_rechunk (need_chunking p) ri w
      else (Inr (no_download (need_chunking p) ri), w))"

section \<open>Chunk stage: lines 210 to 266\<close>

text \<open>
  Lines 224 to 236, the loop over \<^verbatim>\<open>files_to_chunk\<close>. The result is the exception that left
  the loop, if one did, and the chunks collected until then.
\<close>

fun chunk_changed ::
  "env \<Rightarrow> string \<Rightarrow> string list \<Rightarrow> DocumentChunk list \<Rightarrow> world
     \<Rightarrow> (exn option \<times> DocumentChunk list) \<times> world" where
  "chunk_changed ev r [] chunks w = ((None, chunks), w)"
| "chunk_changed ev r (p # ps) chunks w =
     (if exists_is_file ev p then
        (let w1 = delete_file_chunks r p w
         in if is_text_file ev p then
              (case chunk_file ev p of
                 Inl e \<Rightarrow> ((Some e, chunks), record_call (ChunkFile p) w1)
               | Inr file_chunks \<Rightarrow>
                   chunk_changed ev r ps (chunks @ file_chunks) (record_call (ChunkFile p) w1))
            else chunk_changed ev r ps chunks w1)
      else chunk_changed ev r ps chunks w)"

text \<open>
  Lines 238 to 246 and 258 to 266, the same in both branches: on completion the state is
  persisted with \<^verbatim>\<open>chunking_successful = True\<close>; on any exception it is persisted with
  \<^verbatim>\<open>chunking_successful = False\<close>, and the exception is raised again unless it is a
  \<^verbatim>\<open>UnicodeDecodeError\<close>.
\<close>

definition chunking_done ::
  "exn option \<Rightarrow> DocumentChunk list \<Rightarrow> RepositoryInfo \<Rightarrow> world
     \<Rightarrow> (exn + RepositoryInfo \<times> DocumentChunk list) \<times> world" where
  "chunking_done err chunks ri w =
     (case err of
        None \<Rightarrow>
          (Inr (ri\<lparr>chunking_successful := True\<rparr>, chunks),
           add_repository (ri\<lparr>chunking_successful := True\<rparr>) w)
      | Some e \<Rightarrow>
          (if e \<noteq> UnicodeDecodeError then Inl e
           else Inr (ri\<lparr>chunking_successful := False\<rparr>, chunks),
           add_repository (ri\<lparr>chunking_successful := False\<rparr>) w))"

definition chunk_stage ::
  "env \<Rightarrow> string \<Rightarrow> RepositoryInfo option \<Rightarrow> bool \<Rightarrow> locals \<Rightarrow> world
     \<Rightarrow> (exn + RepositoryInfo \<times> DocumentChunk list) \<times> world" where
  "chunk_stage ev r existing_repo force_rechunk l w =
     (if need_chunking_now l \<and> repo_dir l \<noteq> None then
        (if files_to_chunk l \<noteq> [] \<and> \<not> force_rechunk then
           (let w1 = (if files_to_delete l \<noteq> []
                      then fold (delete_file_chunks r) (files_to_delete l) w else w);
                ((err, chunks), w2) = chunk_changed ev r (files_to_chunk l) [] w1
            in chunking_done err chunks (repo_info l) w2)
         else
           (let w1 = (if existing_repo \<noteq> None then delete_repository_chunks r w else w);
                w2 = record_call ChunkRepository w1;
                (chunks, err) = chunk_repository ev
            in chunking_done err chunks (repo_info l) w2))
      else (Inr (repo_info l, []), w))"

section \<open>Embed stage and cleanup: lines 268 to 292\<close>

definition embed_stage ::
  "env \<Rightarrow> bool \<Rightarrow> bool \<Rightarrow> DocumentChunk list \<Rightarrow> RepositoryInfo \<Rightarrow> world
     \<Rightarrow> (exn + RepositoryInfo) \<times> world" where
  "embed_stage ev need_embedding0 need_chunking0 chunks ri w =
     (if need_embedding0 \<and> (chunks \<noteq> [] \<or> \<not> need_chunking0) then
        (if chunks \<noteq> [] then
           (case store_chunks ev chunks w of
              (Some e, w1) \<Rightarrow>
                (Inl e, add_repository (ri\<lparr>embedding_successful := False\<rparr>) w1)
            | (None, w1) \<Rightarrow>
                (let ri' = ri\<lparr>num_chunks := length chunks, embedding_successful := True,
                              last_indexed := Some (now ev)\<rparr>
                 in (Inr ri', add_repository ri' w1)))
         else
           (let ri' = ri\<lparr>embedding_successful := True, last_indexed := Some (now ev)\<rparr>
            in (Inr ri', add_repository ri' w)))
      else (Inr ri, w))"

text \<open>
  Lines 285 to 290: the scratch directory is removed after the embed stage; when removing
  raises, a warning is printed and nothing is raised.
\<close>

definition cleanup :: "env \<Rightarrow> bool \<Rightarrow> world \<Rightarrow> world" where
  "cleanup ev tmp w =
     (if tmp then
        (case rmtree_raises ev of
           None \<Rightarrow> record_call Rmtree (w\<lparr>temp_dirs := temp_dirs w - 1\<rparr>)
         | Some e \<Rightarrow> record_call CleanupWarning (record_call Rmtree w))
      else w)"

section \<open>The run: lines 45 to 292\<close>

text \<open>
  A raised exception is \<^const>\<open>Inl\<close>; the world is returned in either case, as it is when the
  exception leaves the function. Statements after a \<^verbatim>\<open>raise\<close> are not reached: in
  particular the cleanup of line 286 is reached only when no stage raised.
\<close>

definition index_repository ::
  "env \<Rightarrow> string \<Rightarrow> bool \<Rightarrow> bool \<Rightarrow> bool \<Rightarrow> bool \<Rightarrow> world \<Rightarrow> (exn + RepositoryInfo) \<times> world" where
  "index_repository ev r force_refresh force_redownload0 force_rechunk0 force_reembed0 w =
     (let force_redownload = (force_refresh \<or> force_redownload0);
          force_rechunk = (force_refresh \<or> force_rechunk0);
          force_reembed = (force_refresh \<or> force_reembed0)
      in case get_repository_info ev of
           Inl e \<Rightarrow> (Inl e, w)
         | Inr current_repo_info \<Rightarrow>
             (let existing_repo = get_repository r w
              in case check_existing existing_repo current_repo_info force_refresh
                        force_redownload force_rechunk force_reembed of
                   Return existing \<Rightarrow> (Inr existing, w)
                 | Continue p ri \<Rightarrow>
                     (case download_if_needed ev existing_repo force_rechunk p ri w of
                        (Inl e, w1) \<Rightarrow> (Inl e, w1)
                      | (Inr l, w1) \<Rightarrow>
                          (case chunk_stage ev r existing_repo force_rechunk l w1 of
                             (Inl e, w2) \<Rightarrow> (Inl e, w2)
                           | (Inr (ri2, chunks), w2) \<Rightarrow>
                               (case embed_stage ev (need_embedding p) (need_chunking_now l)
                                       chunks ri2 w2 of
                                  (Inl e, w3) \<Rightarrow> (Inl e, w3)
                                | (Inr ri3, w3) \<Rightarrow>
                                    (Inr ri3, cleanup ev (temp_dir l) w3))))))"

text \<open>The calls made by a run that took the world from \<open>w\<close> to \<open>w'\<close>.\<close>

definition run_calls :: "world \<Rightarrow> world \<Rightarrow> event list" where
  "run_calls w w' = drop (length (calls w)) (calls w')"

text \<open>The states a list of calls persisted, in order.\<close>

definition persisted :: "event list \<Rightarrow> RepositoryInfo list" where
  "persisted evs = concat (map (\<lambda>e. case e of AddRepository s \<Rightarrow> [s] | _ \<Rightarrow> []) evs)"

text \<open>
  \<open>extends P w w'\<close>: the calls of \<open>w'\<close> are the calls of \<open>w\<close> followed by calls that all
  satisfy \<open>P\<close>.
\<close>

definition extends :: "(event \<Rightarrow> bool) \<Rightarrow> world \<Rightarrow> world \<Rightarrow> bool" where
  "extends P w w' =
     (take (length (calls w)) (calls w') = calls w \<and> list_all P (run_calls w w'))"

text \<open>A call that persists a state persists one with commit hash \<open>c\<close>.\<close>

definition names_commit :: "string option \<Rightarrow> event \<Rightarrow> bool" where
  "names_commit c e = (case e of AddRepository s \<Rightarrow> commit_hash s = c | _ \<Rightarrow> True)"

section \<open>Sample runs\<close>

text \<open>
  The record the fetcher returns for repository \<^verbatim>\<open>a/b\<close> at commit \<^verbatim>\<open>c1\<close>, as the tests build
  it: only owner, name, url and commit hash are given.
\<close>

definition fresh_info :: RepositoryInfo where
  "fresh_info =
     \<lparr>owner = ''a'', name = ''b'', url = ''u'', last_indexed = None, num_files = 0,
      num_chunks = 0, commit_hash = Some ''c1'', download_successful = False,
      chunking_successful = False, embedding_successful = False, file_hashes = []\<rparr>"

definition chunk_of :: "string \<Rightarrow> DocumentChunk" where
  "chunk_of p = \<lparr>chunk_id = p, repository = ''a/b'', content = ''t'', file_path = Some p\<rparr>"

text \<open>A download of two text files, each giving one chunk; no collaborator raises.\<close>

definition sample_env :: env where
  "sample_env =
     \<lparr>get_repository_info = Inr fresh_info,
      fetch_repository_contents =
        Inr (fresh_info\<lparr>num_files := 2, file_hashes := [(''x.py'', ''h1''), (''y.md'', ''h2'')]\<rparr>,
             Some ''d''),
      get_text_files = [''x.py'', ''y.md''],
      exists_is_file = (\<lambda>p. True),
      is_text_file = (\<lambda>p. True),
      chunk_file = (\<lambda>p. Inr [chunk_of p]),
      chunk_repository = ([chunk_of ''x.py'', chunk_of ''y.md''], None),
      store_chunks_raises = None,
      rmtree_raises = None,
      now = 7\<rparr>"

definition empty_world :: world where
  "empty_world = \<lparr>db_repositories = Map.empty, db_chunks = [], temp_dirs = 0, calls = []\<rparr>"

text \<open>The state a first run of \<^const>\<open>sample_env\<close> on \<^const>\<open>empty_world\<close> returns and persists.\<close>

definition indexed_info :: RepositoryInfo where
  "indexed_info =
     fresh_info\<lparr>last_indexed := Some 7, num_files := 2, num_chunks := 2,
       download_successful := True, chunking_successful := True, embedding_successful := True,
       file_hashes := [(''x.py'', ''h1''), (''y.md'', ''h2'')]\<rparr>"

text \<open>The fetch of the contents fails.\<close>

definition failing_env :: env where
  "failing_env = sample_env\<lparr>fetch_repository_contents := Inl (Exception ''network'')\<rparr>"

text \<open>A world in which the repository was fully indexed at an earlier commit \<^verbatim>\<open>c0\<close>.\<close>

definition previous_world :: world where
  "previous_world =
     \<lparr>db_repositories = [''a/b'' \<mapsto> indexed_info\<lparr>commit_hash := Some ''c0''\<rparr>],
      db_chunks = [chunk_of ''x.py'', chunk_of ''y.md''], temp_dirs = 0, calls = []\<rparr>"

text \<open>
  A world in which the download and the chunking of commit \<^verbatim>\<open>c1\<close> succeeded and the embedding
  did not.
\<close>

definition resume_world :: world where
  "resume_world =
     \<lparr>db_repositories = [''a/b'' \<mapsto> indexed_info\<lparr>embedding_successful := False\<rparr>],
      db_chunks = [chunk_of ''x.py'', chunk_of ''y.md''], temp_dirs = 0, calls = []\<rparr>"

text \<open>A world in which the download of commit \<^verbatim>\<open>c1\<close> succeeded and the chunking did not.\<close>

definition chunk_failed_world :: world where
  "chunk_failed_world =
     \<lparr>db_repositories =
        [''a/b'' \<mapsto> indexed_info\<lparr>chunking_successful := False, embedding_successful := False\<rparr>],
      db_chunks = [], temp_dirs = 0, calls = []\<rparr>"

text \<open>The file \<^verbatim>\<open>x.py\<close> cannot be decoded; \<^verbatim>\<open>y.md\<close> can.\<close>

definition decode_env :: env where
  "decode_env =
     sample_env\<lparr>chunk_file :=
       (\<lambda>p. if p = ''x.py'' then Inl UnicodeDecodeError else Inr [chunk_of p])\<rparr>"

text \<open>The file \<^verbatim>\<open>y.md\<close> cannot be decoded; \<^verbatim>\<open>x.py\<close>, chunked before it, can.\<close>

definition late_decode_env :: env where
  "late_decode_env =
     sample_env\<lparr>chunk_file :=
       (\<lambda>p. if p = ''y.md'' then Inl UnicodeDecodeError else Inr [chunk_of p])\<rparr>"

text \<open>Storing the chunks raises.\<close>

definition embed_failing_env :: env where
  "embed_failing_env = sample_env\<lparr>store_chunks_raises := Some (Exception ''embedding'')\<rparr>"

text \<open>
  At commit \<^verbatim>\<open>c1\<close> the file \<^verbatim>\<open>y.md\<close> is gone and \<^verbatim>\<open>x.py\<close> has changed. In \<open>emptied_env\<close> the
  changed file gives no chunk; in \<open>modified_env\<close> it gives one.
\<close>

definition emptied_env :: env where
  "emptied_env =
     sample_env
       \<lparr>fetch_repository_contents :=
          Inr (fresh_info\<lparr>num_files := 1, file_hashes := [(''x.py'', ''h3'')]\<rparr>, Some ''d''),
        get_text_files := [''x.py''],
        chunk_file := (\<lambda>p. Inr []),
        chunk_repository := ([], None)\<rparr>"

definition modified_env :: env where
  "modified_env =
     sample_env
       \<lparr>fetch_repository_contents :=
          Inr (fresh_info\<lparr>num_files := 1, file_hashes := [(''x.py'', ''h3'')]\<rparr>, Some ''d''),
        get_text_files := [''x.py''],
        chunk_repository := ([chunk_of ''x.py''], None)\<rparr>"

text \<open>The listing of the downloaded directory has \<^verbatim>\<open>x.py\<close> only; both files are hashed.\<close>

definition partial_listing_env :: env where
  "partial_listing_env = sample_env\<lparr>get_text_files := [''x.py'']\<rparr>"

text \<open>Two downloaded records: the files of the first index, and a later snapshot.\<close>

definition hashed_info :: RepositoryInfo where
  "hashed_info =
     fresh_info\<lparr>num_files := 2, file_hashes := [(''x.py'', ''h1''), (''y.md'', ''h2'')]\<rparr>"

definition rehashed_info :: RepositoryInfo where
  "rehashed_info =
     fresh_info\<lparr>num_files := 2, file_hashes := [(''x.py'', ''h3''), (''z.txt'', ''h4'')]\<rparr>"

text \<open>
  A world in which the repository was fully indexed at commit \<^verbatim>\<open>c0\<close> and the persisted state
  has no file hashes.
\<close>

definition nohash_world :: world where
  "nohash_world =
     \<lparr>db_repositories =
        [''a/b'' \<mapsto> indexed_info\<lparr>commit_hash := Some ''c0'', file_hashes := []\<rparr>],
      db_chunks = [chunk_of ''x.py'', chunk_of ''y.md''], temp_dirs = 0, calls = []\<rparr>"

definition indexed_world :: world where
  "indexed_world =
     snd (index_repository sample_env ''a/b'' False False False False empty_world)"

section \<open>Unfolding a run\<close>

lemmas run_defs =
  index_repository_def check_existing_def plan_stages_def truthy_def get_repository_def
  download_if_needed_def download_stage_def select_files_def old_hashes_def all_text_files_def
  chunking_after_download_def no_download_def chunk_stage_def chunking_done_def
  embed_stage_def cleanup_def store_chunks_def add_repository_def delete_file_chunks_def
  delete_repository_chunks_def record_call_def full_name_def changed_files_def
  deleted_files_def keys_def run_calls_def persisted_def Let_def

lemmas sample_defs =
  fresh_info_def chunk_of_def sample_env_def empty_world_def indexed_info_def failing_env_def
  previous_world_def resume_world_def chunk_failed_world_def decode_env_def
  embed_failing_env_def emptied_env_def modified_env_def late_decode_env_def
  partial_listing_env_def hashed_info_def rehashed_info_def nohash_world_def

lemma first_run:
  "index_repository sample_env ''a/b'' False False False False empty_world
     = (Inr indexed_info, indexed_world)"
proof -
  have "fst (index_repository sample_env ''a/b'' False False False False empty_world)
          = Inr indexed_info"
    by (simp add: run_defs sample_defs)
  then show ?thesis
    by (simp add: indexed_world_def prod_eq_iff)
qed

lemma indexed_world_state: "get_repository ''a/b'' indexed_world = Some indexed_info"
  by (simp add: indexed_world_def run_defs sample_defs)

section \<open>The change set\<close>

lemma set_keys: "set (keys d) = dom (map_of d)"
  by (simp add: keys_def dom_map_of_conv_image_fst)

lemma set_changed_files:
  "set (changed_files old new) =
     {p. \<exists>h h'. map_of old p = Some h \<and> map_of new p = Some h' \<and> h \<noteq> h'}
       \<union> (dom (map_of new) - dom (map_of old))"
  unfolding changed_files_def by (auto simp: set_keys)

lemma set_deleted_files:
  "set (deleted_files old new) = dom (map_of old) - dom (map_of new)"
  unfolding deleted_files_def by (auto simp: set_keys)

text \<open>
  C3, as the engine has it. With a persisted mapping that is not empty the engine computes both
  sets from the two mappings alone: the changed set is exactly the paths present in both with
  differing hashes plus the paths present only in the new mapping, and the deleted set is
  exactly the paths present only in the old mapping. With an empty or absent old mapping the
  deleted set is empty and the changed set is the listing of the text files of the downloaded
  directory (lines 185 to 193), nothing when there is no directory; the new mapping is not
  read. The two sets are disjoint in either case.
\<close>

theorem change_set_computation:
  assumes sel: "select_files ev existing_repo downloaded dir = (changed, deleted)"
  shows "(old_hashes existing_repo \<noteq> [] \<longrightarrow>
            set changed =
              {p. \<exists>h h'. map_of (old_hashes existing_repo) p = Some h
                     \<and> map_of (file_hashes downloaded) p = Some h' \<and> h \<noteq> h'}
                \<union> (dom (map_of (file_hashes downloaded))
                     - dom (map_of (old_hashes existing_repo)))
            \<and> set deleted
                = dom (map_of (old_hashes existing_repo)) - dom (map_of (file_hashes downloaded)))
         \<and> (old_hashes existing_repo = [] \<longrightarrow>
               set changed = (if dir = None then {} else set (get_text_files ev))
               \<and> deleted = [])
         \<and> set changed \<inter> set deleted = {}"
proof (cases "old_hashes existing_repo = []")
  case True
  with sel have "changed = (if dir = None then [] else remdups (get_text_files ev))"
    "deleted = []"
    by (auto simp: select_files_def all_text_files_def)
  with True show ?thesis by auto
next
  case False
  with sel have "changed = changed_files (old_hashes existing_repo) (file_hashes downloaded)"
    "deleted = deleted_files (old_hashes existing_repo) (file_hashes downloaded)"
    by (auto simp: select_files_def)
  with False show ?thesis
    by (auto simp: set_changed_files set_deleted_files)
qed

text \<open>
  C3 as stated fails: with no old mapping, a new mapping with \<^verbatim>\<open>x.py\<close> and \<^verbatim>\<open>y.md\<close> and a
  listing with \<^verbatim>\<open>x.py\<close> only, the changed set is \<^verbatim>\<open>x.py\<close> and not the keys of the new mapping.
\<close>

theorem change_set_listing_counterexample:
  "old_hashes None = []
   \<and> fst (select_files partial_listing_env None hashed_info (Some ''d'')) = [''x.py'']
   \<and> dom (map_of (file_hashes hashed_info)) = {''x.py'', ''y.md''}
   \<and> set (fst (select_files partial_listing_env None hashed_info (Some ''d'')))
       \<noteq> dom (map_of (file_hashes hashed_info))"
  by (auto simp: select_files_def old_hashes_def all_text_files_def sample_defs)

theorem change_set_computation_witness:
  "select_files sample_env (Some indexed_info) rehashed_info (Some ''d'')
     = ([''x.py'', ''z.txt''], [''y.md''])
   \<and> {''x.py'', ''z.txt''}
       = {p. \<exists>h h'. map_of (file_hashes indexed_info) p = Some h
              \<and> map_of (file_hashes rehashed_info) p = Some h' \<and> h \<noteq> h'}
         \<union> (dom (map_of (file_hashes rehashed_info)) - dom (map_of (file_hashes indexed_info)))
   \<and> {''y.md''}
       = dom (map_of (file_hashes indexed_info)) - dom (map_of (file_hashes rehashed_info))
   \<and> select_files partial_listing_env None hashed_info (Some ''d'') = ([''x.py''], [])"
proof -
  have sel: "select_files sample_env (Some indexed_info) rehashed_info (Some ''d'')
               = ([''x.py'', ''z.txt''], [''y.md''])"
    by (simp add: run_defs sample_defs)
  have old: "old_hashes (Some indexed_info) \<noteq> []"
    "old_hashes (Some indexed_info) = file_hashes indexed_info"
    by (simp_all add: old_hashes_def sample_defs)
  have sel0: "select_files partial_listing_env None hashed_info (Some ''d'') = ([''x.py''], [])"
    by (simp add: run_defs sample_defs)
  from change_set_computation [OF sel] old change_set_computation [OF sel0] sel sel0
  show ?thesis by simp
qed

section \<open>Re-indexing unchanged content\<close>

text \<open>
  C4. When the prior run completed all three stages (the state it persisted has the three flags
  set) and the fetcher reports the same commit hash again, a second call with no force flag
  returns the persisted state and leaves the world as it was: no call is made, nothing is
  written. The test of line 94 reads the commit hash as a truth value, so the hash is one that
  was observed: it is there and it is not the empty string.
\<close>

theorem index_repository_idempotent:
  assumes first: "index_repository ev1 r f1 f2 f3 f4 w0 = (Inr s, w)"
    and stored: "get_repository r w = Some s"
    and flags: "download_successful s" "chunking_successful s" "embedding_successful s"
    and hash: "commit_hash s = Some h" "h \<noteq> []"
    and again: "get_repository_info ev2 = Inr cur" "commit_hash cur = Some h"
  shows "index_repository ev2 r False False False False w = (Inr s, w)"
  using stored flags hash again
  by (simp add: index_repository_def check_existing_def plan_stages_def truthy_def)

theorem index_repository_idempotent_witness:
  "index_repository sample_env ''a/b'' False False False False indexed_world
     = (Inr indexed_info, indexed_world)"
  using index_repository_idempotent
    [OF first_run indexed_world_state, of "''c1''" sample_env fresh_info]
  by (simp add: sample_defs)

section \<open>Calls made by the stages\<close>

lemma extends_iff: "extends P w w' \<longleftrightarrow> (\<exists>evs. calls w' = calls w @ evs \<and> (\<forall>e\<in>set evs. P e))"
proof
  assume "extends P w w'"
  then have "calls w' = calls w @ run_calls w w'" "\<forall>e\<in>set (run_calls w w'). P e"
    unfolding extends_def run_calls_def list_all_iff
    by (metis append_take_drop_id, blast)
  then show "\<exists>evs. calls w' = calls w @ evs \<and> (\<forall>e\<in>set evs. P e)" by blast
next
  assume "\<exists>evs. calls w' = calls w @ evs \<and> (\<forall>e\<in>set evs. P e)"
  then show "extends P w w'"
    by (auto simp: extends_def run_calls_def list_all_iff)
qed

lemma extendsI: "calls w' = calls w @ evs \<Longrightarrow> (\<And>e. e \<in> set evs \<Longrightarrow> P e) \<Longrightarrow> extends P w w'"
  by (auto simp: extends_iff)

lemma extends_same: "calls w' = calls w \<Longrightarrow> extends P w w'"
  by (simp add: extends_iff)

lemma extends_trans: "extends P w w1 \<Longrightarrow> extends P w1 w2 \<Longrightarrow> extends P w w2"
  by (fastforce simp: extends_iff)

lemma extends_mono: "extends P w w' \<Longrightarrow> (\<And>e. P e \<Longrightarrow> Q e) \<Longrightarrow> extends Q w w'"
  by (fastforce simp: extends_iff)

lemma extends_run_calls: "extends P w w' \<Longrightarrow> e \<in> set (run_calls w w') \<Longrightarrow> P e"
  by (auto simp: extends_iff run_calls_def)

lemma run_calls_append:
  "extends P w w1 \<Longrightarrow> extends Q w1 w2 \<Longrightarrow> run_calls w w2 = run_calls w w1 @ run_calls w1 w2"
  by (auto simp: extends_iff run_calls_def)

lemma calls_record_call: "calls (record_call e w) = calls w @ [e]"
  by (simp add: record_call_def)

lemma extends_record_call: "P e \<Longrightarrow> extends P w (record_call e w)"
  by (rule extendsI [where evs = "[e]"]) (simp_all add: calls_record_call)

lemma extends_add_repository: "P (AddRepository ri) \<Longrightarrow> extends P w (add_repository ri w)"
  by (rule extendsI [where evs = "[AddRepository ri]"]) (simp_all add: add_repository_def calls_record_call)

lemma extends_delete_file_chunks:
  "P (DeleteFileChunks r p) \<Longrightarrow> extends P w (delete_file_chunks r p w)"
  by (rule extendsI [where evs = "[DeleteFileChunks r p]"])
     (simp_all add: delete_file_chunks_def calls_record_call)

lemma extends_delete_repository_chunks:
  "P (DeleteRepositoryChunks r) \<Longrightarrow> extends P w (delete_repository_chunks r w)"
  by (rule extendsI [where evs = "[DeleteRepositoryChunks r]"])
     (simp_all add: delete_repository_chunks_def calls_record_call)

lemma extends_fold_delete:
  "(\<And>p. p \<in> set ps \<Longrightarrow> P (DeleteFileChunks r p))
     \<Longrightarrow> extends P w (fold (delete_file_chunks r) ps w)"
proof (induction ps arbitrary: w)
  case Nil
  show ?case by (simp add: extends_same)
next
  case (Cons p ps)
  have "extends P w (delete_file_chunks r p w)"
    by (rule extends_delete_file_chunks) (simp add: Cons.prems)
  moreover have "extends P (delete_file_chunks r p w)
                   (fold (delete_file_chunks r) ps (delete_file_chunks r p w))"
    by (rule Cons.IH) (simp add: Cons.prems)
  ultimately show ?case by (auto intro: extends_trans)
qed

lemma extends_chunk_changed:
  assumes "chunk_changed ev r ps cs w = (res, w')"
    and "\<And>p. p \<in> set ps \<Longrightarrow> P (DeleteFileChunks r p)"
    and "\<And>p. p \<in> set ps \<Longrightarrow> P (ChunkFile p)"
  shows "extends P w w'"
  using assms
proof (induction ps arbitrary: cs w)
  case Nil
  then show ?case by (simp add: extends_same)
next
  case (Cons p ps)
  have del: "extends P w (delete_file_chunks r p w)"
    by (rule extends_delete_file_chunks) (simp add: Cons.prems)
  have chk: "extends P (delete_file_chunks r p w) (record_call (ChunkFile p) (delete_file_chunks r p w))"
    by (rule extends_record_call) (simp add: Cons.prems)
  have rest: "\<And>cs' w1. chunk_changed ev r ps cs' w1 = (res, w') \<Longrightarrow> extends P w1 w'"
    by (rule Cons.IH) (simp_all add: Cons.prems)
  from Cons.prems(1) show ?case
    by (auto simp: Let_def split: if_splits sum.splits
          intro: extends_trans [OF del] extends_trans [OF del chk] rest
                 extends_trans [OF extends_trans [OF del chk]])
qed


lemma extends_chunking_done:
  assumes "chunking_done err cs ri w = (res, w')"
    and "\<And>s. commit_hash s = commit_hash ri \<Longrightarrow> P (AddRepository s)"
  shows "extends P w w'"
  using assms
  by (auto simp: chunking_done_def split: option.splits intro!: extends_add_repository)

lemma extends_chunk_stage:
  assumes run: "chunk_stage ev r ex fc l w = (res, w')"
    and other: "\<And>e. (\<forall>s. e \<noteq> AddRepository s) \<Longrightarrow> P e"
    and add: "\<And>s. commit_hash s = commit_hash (repo_info l) \<Longrightarrow> P (AddRepository s)"
  shows "extends P w w'"
proof (cases "need_chunking_now l \<and> repo_dir l \<noteq> None")
  case False
  with run show ?thesis by (auto simp: chunk_stage_def extends_same)
next
  case stage: True
  show ?thesis
  proof (cases "files_to_chunk l \<noteq> [] \<and> \<not> fc")
    case True
    define w1 where "w1 = (if files_to_delete l \<noteq> []
                      then fold (delete_file_chunks r) (files_to_delete l) w else w)"
    obtain err cs w2 where loop: "chunk_changed ev r (files_to_chunk l) [] w1 = ((err, cs), w2)"
      by (metis surj_pair)
    from run stage True loop have fin: "chunking_done err cs (repo_info l) w2 = (res, w')"
      by (simp add: chunk_stage_def w1_def)
    have "extends P w w1"
      unfolding w1_def by (auto intro!: extends_fold_delete other simp: extends_same)
    moreover have "extends P w1 w2"
      by (rule extends_chunk_changed [OF loop]) (simp_all add: other)
    moreover have "extends P w2 w'"
      by (rule extends_chunking_done [OF fin]) (rule add)
    ultimately show ?thesis by (blast intro: extends_trans)
  next
    case False
    define w1 where "w1 = (if ex \<noteq> None then delete_repository_chunks r w else w)"
    obtain cs err where gen: "chunk_repository ev = (cs, err)"
      by (metis surj_pair)
    from run stage False gen
    have fin: "chunking_done err cs (repo_info l) (record_call ChunkRepository w1) = (res, w')"
      by (simp add: chunk_stage_def w1_def)
    have "extends P w w1"
      unfolding w1_def by (auto intro!: extends_delete_repository_chunks other simp: extends_same)
    moreover have "extends P w1 (record_call ChunkRepository w1)"
      by (rule extends_record_call) (simp add: other)
    moreover have "extends P (record_call ChunkRepository w1) w'"
      by (rule extends_chunking_done [OF fin]) (rule add)
    ultimately show ?thesis by (blast intro: extends_trans)
  qed
qed

lemma chunk_stage_commit:
  "chunk_stage ev r ex fc l w = (Inr (ri2, cs), w') \<Longrightarrow> commit_hash ri2 = commit_hash (repo_info l)"
  by (auto simp: chunk_stage_def chunking_done_def Let_def
        split: if_splits prod.splits option.splits)

lemma extends_embed_stage:
  assumes "embed_stage ev ne nc cs ri w = (res, w')"
    and "\<And>e. (\<forall>s. e \<noteq> AddRepository s) \<Longrightarrow> P e"
    and "\<And>s. commit_hash s = commit_hash ri \<Longrightarrow> P (AddRepository s)"
  shows "extends P w w'"
  using assms
  by (auto simp: embed_stage_def store_chunks_def add_repository_def record_call_def
        extends_def run_calls_def Let_def
        split: if_splits option.splits)

lemma extends_download_stage:
  assumes "download_stage ev ex fc nc ri w = (res, w')"
    and "\<And>e. (\<forall>s. e \<noteq> AddRepository s) \<Longrightarrow> P e"
    and "\<And>s. commit_hash s = commit_hash ri \<Longrightarrow> P (AddRepository s)"
  shows "extends P w w'"
proof -
  have pre: "extends P w (record_call FetchContents (record_call Mkdtemp (w\<lparr>temp_dirs := temp_dirs w + 1\<rparr>)))"
    by (rule extendsI [where evs = "[Mkdtemp, FetchContents]"])
       (auto simp: calls_record_call assms(2))
  from assms(1) show ?thesis
    by (auto simp: download_stage_def Let_def split: sum.splits prod.splits
          intro!: extends_trans [OF pre] extends_add_repository assms(3))
qed

lemma download_stage_commit:
  "download_stage ev ex fc nc ri w = (Inr l, w') \<Longrightarrow> commit_hash (repo_info l) = commit_hash ri"
  by (auto simp: download_stage_def Let_def split: sum.splits prod.splits)

lemma extends_cleanup:
  "(\<And>e. (\<forall>s. e \<noteq> AddRepository s) \<Longrightarrow> P e) \<Longrightarrow> extends P w (cleanup ev t w)"
  by (auto simp: cleanup_def record_call_def extends_def run_calls_def split: option.splits)

lemma check_existing_commit:
  "check_existing ex cur ff fd fc fe = Continue p ri \<Longrightarrow> commit_hash ri = commit_hash cur"
  by (auto simp: check_existing_def Let_def split: option.splits if_splits)



lemma extends_download_if_needed:
  assumes "download_if_needed ev ex fc p ri w = (res, w')"
    and "\<And>e. (\<forall>s. e \<noteq> AddRepository s) \<Longrightarrow> P e"
    and "\<And>s. commit_hash s = commit_hash ri \<Longrightarrow> P (AddRepository s)"
  shows "extends P w w'"
proof (cases "need_download p")
  case True
  with assms(1) have "download_stage ev ex fc (need_chunking p) ri w = (res, w')"
    by (simp add: download_if_needed_def)
  then show ?thesis by (rule extends_download_stage) (fact assms(2), fact assms(3))
next
  case False
  with assms(1) show ?thesis by (simp add: download_if_needed_def extends_same)
qed

lemma download_if_needed_commit:
  "download_if_needed ev ex fc p ri w = (Inr l, w') \<Longrightarrow> commit_hash (repo_info l) = commit_hash ri"
  by (auto simp: download_if_needed_def no_download_def dest: download_stage_commit
        split: if_splits)

text \<open>The ways a run ends, with the stages it went through.\<close>

lemma index_repository_cases:
  assumes run: "index_repository ev r ff fd fc fe w = (res, w')"
  obtains
    (info_fails) e where
      "get_repository_info ev = Inl e" "res = Inl e" "w' = w"
  | (unchanged) cur existing where
      "get_repository_info ev = Inr cur"
      "check_existing (get_repository r w) cur ff (ff \<or> fd) (ff \<or> fc) (ff \<or> fe) = Return existing"
      "res = Inr existing" "w' = w"
  | (download_fails) cur p ri e where
      "get_repository_info ev = Inr cur"
      "check_existing (get_repository r w) cur ff (ff \<or> fd) (ff \<or> fc) (ff \<or> fe) = Continue p ri"
      "download_if_needed ev (get_repository r w) (ff \<or> fc) p ri w = (Inl e, w')"
      "res = Inl e"
  | (chunk_fails) cur p ri l w1 e where
      "get_repository_info ev = Inr cur"
      "check_existing (get_repository r w) cur ff (ff \<or> fd) (ff \<or> fc) (ff \<or> fe) = Continue p ri"
      "download_if_needed ev (get_repository r w) (ff \<or> fc) p ri w = (Inr l, w1)"
      "chunk_stage ev r (get_repository r w) (ff \<or> fc) l w1 = (Inl e, w')"
      "res = Inl e"
  | (embed_fails) cur p ri l w1 ri2 chunks w2 e where
      "get_repository_info ev = Inr cur"
      "check_existing (get_repository r w) cur ff (ff \<or> fd) (ff \<or> fc) (ff \<or> fe) = Continue p ri"
      "download_if_needed ev (get_repository r w) (ff \<or> fc) p ri w = (Inr l, w1)"
      "chunk_stage ev r (get_repository r w) (ff \<or> fc) l w1 = (Inr (ri2, chunks), w2)"
      "embed_stage ev (need_embedding p) (need_chunking_now l) chunks ri2 w2 = (Inl e, w')"
      "res = Inl e"
  | (completes) cur p ri l w1 ri2 chunks w2 ri3 w3 where
      "get_repository_info ev = Inr cur"
      "check_existing (get_repository r w) cur ff (ff \<or> fd) (ff \<or> fc) (ff \<or> fe) = Continue p ri"
      "download_if_needed ev (get_repository r w) (ff \<or> fc) p ri w = (Inr l, w1)"
      "chunk_stage ev r (get_repository r w) (ff \<or> fc) l w1 = (Inr (ri2, chunks), w2)"
      "embed_stage ev (need_embedding p) (need_chunking_now l) chunks ri2 w2 = (Inr ri3, w3)"
      "res = Inr ri3" "w' = cleanup ev (temp_dir l) w3"
proof (cases "get_repository_info ev")
  case (Inl e)
  with run have "res = Inl e" "w' = w"
    by (simp_all add: index_repository_def)
  with Inl show thesis by (rule that(1))
next
  case info: (Inr cur)
  show thesis
  proof (cases "check_existing (get_repository r w) cur ff (ff \<or> fd) (ff \<or> fc) (ff \<or> fe)")
    case (Return existing)
    with run info have "res = Inr existing" "w' = w"
      by (simp_all add: index_repository_def)
    with info Return show thesis by (rule that(2))
  next
    case (Continue p ri)
    obtain dres w1 where
      dl: "download_if_needed ev (get_repository r w) (ff \<or> fc) p ri w = (dres, w1)"
      by (metis surj_pair)
    show thesis
    proof (cases dres)
      case (Inl e)
      with run info Continue dl have "res = Inl e" "w' = w1"
        by (simp_all add: index_repository_def)
      with info Continue dl Inl show thesis by (auto intro: that(3))
    next
      case l: (Inr l)
      obtain cres w2 where
        ch: "chunk_stage ev r (get_repository r w) (ff \<or> fc) l w1 = (cres, w2)"
        by (metis surj_pair)
      show thesis
      proof (cases cres)
        case (Inl e)
        with run info Continue dl l ch have "res = Inl e" "w' = w2"
          by (simp_all add: index_repository_def)
        with info Continue dl l ch Inl show thesis by (auto intro: that(4))
      next
        case c: (Inr rc)
        obtain ri2 chunks where rc: "rc = (ri2, chunks)" by (metis surj_pair)
        obtain eres w3 where
          em: "embed_stage ev (need_embedding p) (need_chunking_now l) chunks ri2 w2 = (eres, w3)"
          by (metis surj_pair)
        show thesis
        proof (cases eres)
          case (Inl e)
          with run info Continue dl l ch c rc em have "res = Inl e" "w' = w3"
            by (simp_all add: index_repository_def)
          with info Continue dl l ch c rc em Inl show thesis by (auto intro: that(5))
        next
          case (Inr ri3)
          with run info Continue dl l ch c rc em
          have "res = Inr ri3" "w' = cleanup ev (temp_dir l) w3"
            by (simp_all add: index_repository_def)
          with info Continue dl l ch c rc em Inr show thesis by (auto intro: that(6))
        qed
      qed
    qed
  qed
qed

lemma extends_index_repository:
  assumes run: "index_repository ev r ff fd fc fe w = (res, w')"
    and other: "\<And>e. (\<forall>s. e \<noteq> AddRepository s) \<Longrightarrow> P e"
    and add: "\<And>cur s. get_repository_info ev = Inr cur \<Longrightarrow> commit_hash s = commit_hash cur
                \<Longrightarrow> P (AddRepository s)"
  shows "extends P w w'"
  using run
proof (cases rule: index_repository_cases)
  case (info_fails e)
  then show ?thesis by (simp add: extends_same)
next
  case (unchanged cur existing)
  then show ?thesis by (simp add: extends_same)
next
  case (download_fails cur p ri e)
  have ri: "commit_hash ri = commit_hash cur"
    by (rule check_existing_commit [OF download_fails(2)])
  show ?thesis
    by (rule extends_download_if_needed [OF download_fails(3)])
       (simp_all add: other add [OF download_fails(1)] ri)
next
  case (chunk_fails cur p ri l w1 e)
  have ri: "commit_hash ri = commit_hash cur"
    by (rule check_existing_commit [OF chunk_fails(2)])
  have lc: "commit_hash (repo_info l) = commit_hash cur"
    using download_if_needed_commit [OF chunk_fails(3)] ri by simp
  have "extends P w w1"
    by (rule extends_download_if_needed [OF chunk_fails(3)])
       (simp_all add: other add [OF chunk_fails(1)] ri)
  moreover have "extends P w1 w'"
    by (rule extends_chunk_stage [OF chunk_fails(4)])
       (simp_all add: other add [OF chunk_fails(1)] lc)
  ultimately show ?thesis by (rule extends_trans)
next
  case (embed_fails cur p ri l w1 ri2 chunks w2 e)
  have ri: "commit_hash ri = commit_hash cur"
    by (rule check_existing_commit [OF embed_fails(2)])
  have lc: "commit_hash (repo_info l) = commit_hash cur"
    using download_if_needed_commit [OF embed_fails(3)] ri by simp
  have rc: "commit_hash ri2 = commit_hash cur"
    using chunk_stage_commit [OF embed_fails(4)] lc by simp
  have "extends P w w1"
    by (rule extends_download_if_needed [OF embed_fails(3)])
       (simp_all add: other add [OF embed_fails(1)] ri)
  moreover have "extends P w1 w2"
    by (rule extends_chunk_stage [OF embed_fails(4)])
       (simp_all add: other add [OF embed_fails(1)] lc)
  moreover have "extends P w2 w'"
    by (rule extends_embed_stage [OF embed_fails(5)])
       (simp_all add: other add [OF embed_fails(1)] rc)
  ultimately show ?thesis by (blast intro: extends_trans)
next
  case (completes cur p ri l w1 ri2 chunks w2 ri3 w3)
  have ri: "commit_hash ri = commit_hash cur"
    by (rule check_existing_commit [OF completes(2)])
  have lc: "commit_hash (repo_info l) = commit_hash cur"
    using download_if_needed_commit [OF completes(3)] ri by simp
  have rc: "commit_hash ri2 = commit_hash cur"
    using chunk_stage_commit [OF completes(4)] lc by simp
  have "extends P w w1"
    by (rule extends_download_if_needed [OF completes(3)])
       (simp_all add: other add [OF completes(1)] ri)
  moreover have "extends P w1 w2"
    by (rule extends_chunk_stage [OF completes(4)])
       (simp_all add: other add [OF completes(1)] lc)
  moreover have "extends P w2 w3"
    by (rule extends_embed_stage [OF completes(5)])
       (simp_all add: other add [OF completes(1)] rc)
  moreover have "extends P w3 w'"
    unfolding completes(7) by (rule extends_cleanup) (rule other)
  ultimately show ?thesis by (blast intro: extends_trans)
qed

lemma download_stage_calls:
  "download_stage ev ex fc nc ri w = (dres, w1) \<Longrightarrow>
     \<exists>s. calls w1 = calls w @ [Mkdtemp, FetchContents, AddRepository s]
       \<and> db_chunks w1 = db_chunks w \<and> temp_dirs w1 = temp_dirs w + 1"
  by (auto simp: download_stage_def add_repository_def record_call_def Let_def
        split: sum.splits prod.splits)

lemma download_stage_fails:
  assumes "fetch_repository_contents ev = Inl e"
  shows "download_stage ev ex fc nc ri w =
           (Inl e, add_repository (ri\<lparr>download_successful := False\<rparr>)
                     (record_call FetchContents
                        (record_call Mkdtemp (w\<lparr>temp_dirs := temp_dirs w + 1\<rparr>))))"
  using assms by (simp add: download_stage_def)

lemma download_stage_succeeds:
  "download_stage ev ex fc nc ri w = (Inr l, w1) \<Longrightarrow>
     \<exists>d dir. fetch_repository_contents ev = Inr (d, dir)"
  by (auto simp: download_stage_def Let_def split: sum.splits prod.splits)

text \<open>After the download step every later step only adds calls.\<close>

lemma run_keeps_download_calls:
  assumes run: "index_repository ev r ff fd fc fe w = (res, w')"
    and info: "get_repository_info ev = Inr cur"
    and cont: "check_existing (get_repository r w) cur ff (ff \<or> fd) (ff \<or> fc) (ff \<or> fe)
                 = Continue p ri"
    and dl: "download_if_needed ev (get_repository r w) (ff \<or> fc) p ri w = (dres, w1)"
  shows "extends (\<lambda>e. True) w1 w'"
  using run
proof (cases rule: index_repository_cases)
  case (info_fails e)
  with info show ?thesis by simp
next
  case (unchanged cur' existing)
  with info cont show ?thesis by simp
next
  case (download_fails cur' p' ri' e)
  with info cont dl show ?thesis by (simp add: extends_same)
next
  case (chunk_fails cur' p' ri' l w1' e)
  with info cont dl have "chunk_stage ev r (get_repository r w) (ff \<or> fc) l w1 = (Inl e, w')"
    by simp
  then show ?thesis by (rule extends_chunk_stage) simp_all
next
  case (embed_fails cur' p' ri' l w1' ri2 chunks w2 e)
  with info cont dl
  have "chunk_stage ev r (get_repository r w) (ff \<or> fc) l w1 = (Inr (ri2, chunks), w2)"
    by simp
  then have "extends (\<lambda>e. True) w1 w2" by (rule extends_chunk_stage) simp_all
  moreover have "extends (\<lambda>e. True) w2 w'"
    by (rule extends_embed_stage [OF embed_fails(5)]) simp_all
  ultimately show ?thesis by (rule extends_trans)
next
  case (completes cur' p' ri' l w1' ri2 chunks w2 ri3 w3)
  with info cont dl
  have "chunk_stage ev r (get_repository r w) (ff \<or> fc) l w1 = (Inr (ri2, chunks), w2)"
    by simp
  then have "extends (\<lambda>e. True) w1 w2" by (rule extends_chunk_stage) simp_all
  moreover have "extends (\<lambda>e. True) w2 w3"
    by (rule extends_embed_stage [OF completes(5)]) simp_all
  moreover have "extends (\<lambda>e. True) w3 w'"
    unfolding completes(7) by (rule extends_cleanup) simp
  ultimately show ?thesis by (blast intro: extends_trans)
qed

text \<open>A run that needs the download calls the fetcher.\<close>

lemma needed_download_is_fetched:
  assumes run: "index_repository ev r ff fd fc fe w = (res, w')"
    and info: "get_repository_info ev = Inr cur"
    and cont: "check_existing (get_repository r w) cur ff (ff \<or> fd) (ff \<or> fc) (ff \<or> fe)
                 = Continue p ri"
    and need: "need_download p"
  shows "FetchContents \<in> set (run_calls w w')"
proof -
  obtain dres w1 where
    dl: "download_if_needed ev (get_repository r w) (ff \<or> fc) p ri w = (dres, w1)"
    by (metis surj_pair)
  with need have "download_stage ev (get_repository r w) (ff \<or> fc) (need_chunking p) ri w
                    = (dres, w1)"
    by (simp add: download_if_needed_def)
  then obtain s where w1: "calls w1 = calls w @ [Mkdtemp, FetchContents, AddRepository s]"
    by (blast dest: download_stage_calls)
  from run_keeps_download_calls [OF run info cont dl]
  obtain evs where "calls w' = calls w1 @ evs"
    by (auto simp: extends_iff)
  with w1 show ?thesis by (simp add: run_calls_def)
qed

text \<open>A run whose download is skipped at most persists one state.\<close>

lemma skipped_download_run:
  assumes run: "index_repository ev r ff fd fc fe w = (res, w')"
    and info: "get_repository_info ev = Inr cur"
    and cont: "check_existing (get_repository r w) cur ff (ff \<or> fd) (ff \<or> fc) (ff \<or> fe)
                 = Continue p ri"
    and skip: "\<not> need_download p"
  shows "w' = w \<or> (\<exists>s. w' = add_repository s w)"
  using assms
  by (auto simp: index_repository_def download_if_needed_def no_download_def chunk_stage_def
        embed_stage_def cleanup_def Let_def split: if_splits)

lemma run_calls_same: "run_calls w w = []"
  by (simp add: run_calls_def)

lemma run_calls_add_repository: "run_calls w (add_repository s w) = [AddRepository s]"
  by (simp add: run_calls_def add_repository_def record_call_def)

section \<open>The commit hash of persisted states\<close>

text \<open>
  C10. Every state persisted during a run carries the commit hash the fetcher reported at the
  start of that run, on every path, the failure paths included: \<^verbatim>\<open>repo_info\<close> is the freshly
  fetched record and no stage assigns its commit hash.
\<close>

theorem persisted_states_carry_new_commit:
  assumes "get_repository_info ev = Inr cur"
    and "index_repository ev r force_refresh force_redownload force_rechunk force_reembed w = (res, w')"
  shows "\<forall>s\<in>set (persisted (run_calls w w')). commit_hash s = commit_hash cur"
proof -
  have "extends (names_commit (commit_hash cur)) w w'"
    by (rule extends_index_repository [OF assms(2)])
       (auto simp: names_commit_def assms(1) split: event.splits)
  then have "\<forall>e\<in>set (run_calls w w'). names_commit (commit_hash cur) e"
    by (blast dest: extends_run_calls)
  then show ?thesis
    by (auto simp: persisted_def names_commit_def split: event.splits)
qed

text \<open>
  A run on a repository indexed at commit \<^verbatim>\<open>c0\<close>, now at \<^verbatim>\<open>c1\<close>, whose download fails: the one
  state it persists already names \<^verbatim>\<open>c1\<close>.
\<close>

lemma failed_run:
  "index_repository failing_env ''a/b'' False False False False previous_world
     = (Inl (Exception ''network''),
        snd (index_repository failing_env ''a/b'' False False False False previous_world))"
  by (simp add: run_defs sample_defs prod_eq_iff)

theorem persisted_states_carry_new_commit_witness:
  "get_repository_info failing_env = Inr fresh_info
   \<and> persisted (run_calls previous_world
        (snd (index_repository failing_env ''a/b'' False False False False previous_world)))
       = [fresh_info\<lparr>num_chunks := 2, num_files := 2,
                     file_hashes := [(''x.py'', ''h1''), (''y.md'', ''h2'')]\<rparr>]
   \<and> commit_hash (fresh_info\<lparr>num_chunks := 2, num_files := 2,
                     file_hashes := [(''x.py'', ''h1''), (''y.md'', ''h2'')]\<rparr>) = Some ''c1''"
  using persisted_states_carry_new_commit [OF _ failed_run, of fresh_info]
  by (simp add: run_defs sample_defs)


section \<open>Failure of the download\<close>

text \<open>
  C7. When the download stage runs and fetching raises, the run raises that exception; its
  calls are the creation of the scratch directory, the fetch and one write of a state with
  \<^verbatim>\<open>download_successful = False\<close>, which is the stored state afterwards. No chunk or embed
  call is made.
\<close>

theorem download_failure_is_fatal:
  assumes fails: "fetch_repository_contents ev = Inl e"
    and run: "index_repository ev r force_refresh force_redownload force_rechunk force_reembed w
                = (res, w')"
    and fetched: "FetchContents \<in> set (run_calls w w')"
  shows "res = Inl e \<and>
         (\<exists>s. \<not> download_successful s
            \<and> run_calls w w' = [Mkdtemp, FetchContents, AddRepository s]
            \<and> get_repository (full_name s) w' = Some s)"
  using run
proof (cases rule: index_repository_cases)
  case (info_fails e')
  with fetched show ?thesis by (simp add: run_calls_same)
next
  case (unchanged cur existing)
  with fetched show ?thesis by (simp add: run_calls_same)
next
  case (download_fails cur p ri e')
  from download_fails(3) have need: "need_download p"
    by (auto simp: download_if_needed_def split: if_splits)
  with download_fails(3) fails
  have "e' = e"
    "w' = add_repository (ri\<lparr>download_successful := False\<rparr>)
            (record_call FetchContents (record_call Mkdtemp (w\<lparr>temp_dirs := temp_dirs w + 1\<rparr>)))"
    by (simp_all add: download_if_needed_def download_stage_fails)
  with download_fails(4) show ?thesis
    by (auto simp: run_calls_def add_repository_def record_call_def get_repository_def
          intro!: exI [where x = "ri\<lparr>download_successful := False\<rparr>"])
next
  case (chunk_fails cur p ri l w1 e')
  have skip: "\<not> need_download p"
    using chunk_fails(3) fails
    by (auto simp: download_if_needed_def dest: download_stage_succeeds split: if_splits)
  from skipped_download_run [OF run chunk_fails(1,2) skip] fetched
  show ?thesis by (auto simp: run_calls_same run_calls_add_repository)
next
  case (embed_fails cur p ri l w1 ri2 chunks w2 e')
  have skip: "\<not> need_download p"
    using embed_fails(3) fails
    by (auto simp: download_if_needed_def dest: download_stage_succeeds split: if_splits)
  from skipped_download_run [OF run embed_fails(1,2) skip] fetched
  show ?thesis by (auto simp: run_calls_same run_calls_add_repository)
next
  case (completes cur p ri l w1 ri2 chunks w2 ri3 w3)
  have skip: "\<not> need_download p"
    using completes(3) fails
    by (auto simp: download_if_needed_def dest: download_stage_succeeds split: if_splits)
  from skipped_download_run [OF run completes(1,2) skip] fetched
  show ?thesis by (auto simp: run_calls_same run_calls_add_repository)
qed

theorem download_failure_is_fatal_witness:
  "fetch_repository_contents failing_env = Inl (Exception ''network'')
   \<and> index_repository failing_env ''a/b'' False False False False previous_world
       = (Inl (Exception ''network''),
          snd (index_repository failing_env ''a/b'' False False False False previous_world))
   \<and> run_calls previous_world
        (snd (index_repository failing_env ''a/b'' False False False False previous_world))
       = [Mkdtemp, FetchContents,
          AddRepository (fresh_info\<lparr>num_chunks := 2, num_files := 2,
                     file_hashes := [(''x.py'', ''h1''), (''y.md'', ''h2'')]\<rparr>)]"
  using download_failure_is_fatal [OF _ failed_run, of "Exception ''network''"]
  by (simp add: run_defs sample_defs)

section \<open>Chunks are written only after a download\<close>

text \<open>
  C9, as the engine has it. In a run that does not fetch, or whose fetch raises,
  \<^verbatim>\<open>store_chunks\<close> is never called, no chunk is deleted and the stored chunks are unchanged:
  apart from the download attempt itself, all such a run does is persist states.
\<close>

theorem chunks_written_only_after_download:
  assumes run: "index_repository ev r force_refresh force_redownload force_rechunk force_reembed w
                  = (res, w')"
    and nodl: "FetchContents \<notin> set (run_calls w w') \<or> (\<exists>e. fetch_repository_contents ev = Inl e)"
  shows "(\<forall>cs. StoreChunks cs \<notin> set (run_calls w w'))
         \<and> db_chunks w' = db_chunks w
         \<and> (\<forall>e\<in>set (run_calls w w').
               e = Mkdtemp \<or> e = FetchContents \<or> (\<exists>s. e = AddRepository s))"
proof -
  have "(w' = w \<or> (\<exists>s. w' = add_repository s w))
        \<or> (\<exists>s. calls w' = calls w @ [Mkdtemp, FetchContents, AddRepository s]
              \<and> db_chunks w' = db_chunks w)"
    using run
  proof (cases rule: index_repository_cases)
    case (info_fails e)
    then show ?thesis by simp
  next
    case (unchanged cur existing)
    then show ?thesis by simp
  next
    case (download_fails cur p ri e)
    then have "download_stage ev (get_repository r w) (force_refresh \<or> force_rechunk)
                 (need_chunking p) ri w = (Inl e, w')"
      by (auto simp: download_if_needed_def split: if_splits)
    then show ?thesis by (blast dest: download_stage_calls)
  next
    case (chunk_fails cur p ri l w1 e)
    have "\<not> need_download p"
    proof
      assume need: "need_download p"
      with chunk_fails(3) nodl needed_download_is_fetched [OF run chunk_fails(1,2)]
      show False
        by (auto simp: download_if_needed_def dest: download_stage_succeeds)
    qed
    then show ?thesis using skipped_download_run [OF run chunk_fails(1,2)] by blast
  next
    case (embed_fails cur p ri l w1 ri2 chunks w2 e)
    have "\<not> need_download p"
    proof
      assume need: "need_download p"
      with embed_fails(3) nodl needed_download_is_fetched [OF run embed_fails(1,2)]
      show False
        by (auto simp: download_if_needed_def dest: download_stage_succeeds)
    qed
    then show ?thesis using skipped_download_run [OF run embed_fails(1,2)] by blast
  next
    case (completes cur p ri l w1 ri2 chunks w2 ri3 w3)
    have "\<not> need_download p"
    proof
      assume need: "need_download p"
      with completes(3) nodl needed_download_is_fetched [OF run completes(1,2)]
      show False
        by (auto simp: download_if_needed_def dest: download_stage_succeeds)
    qed
    then show ?thesis using skipped_download_run [OF run completes(1,2)] by blast
  qed
  then show ?thesis
    by (auto simp: run_calls_def add_repository_def record_call_def)
qed

theorem chunks_written_only_after_download_witness:
  "FetchContents \<notin> set (run_calls resume_world
       (snd (index_repository sample_env ''a/b'' False False False False resume_world)))
   \<and> db_chunks (snd (index_repository sample_env ''a/b'' False False False False resume_world))
       = [chunk_of ''x.py'', chunk_of ''y.md'']
   \<and> run_calls resume_world
        (snd (index_repository sample_env ''a/b'' False False False False resume_world))
       = [AddRepository (fresh_info\<lparr>embedding_successful := True, last_indexed := Some 7\<rparr>)]"
  using chunks_written_only_after_download
    [of sample_env "''a/b''" False False False False resume_world
        "fst (index_repository sample_env ''a/b'' False False False False resume_world)"
        "snd (index_repository sample_env ''a/b'' False False False False resume_world)"]
  by (simp add: run_defs sample_defs)

text \<open>
  C9 as stated fails where it says that such a run changes state flags only: the resumed run
  replaces the persisted record by the fetcher's fresh one, so the file hashes and the file
  count of the stored state change as well.
\<close>

theorem run_without_download_counterexample:
  "get_repository ''a/b'' resume_world = Some (indexed_info\<lparr>embedding_successful := False\<rparr>)
   \<and> run_calls resume_world
        (snd (index_repository sample_env ''a/b'' False False False False resume_world))
       = [AddRepository (fresh_info\<lparr>embedding_successful := True, last_indexed := Some 7\<rparr>)]
   \<and> get_repository ''a/b''
        (snd (index_repository sample_env ''a/b'' False False False False resume_world))
       = Some (fresh_info\<lparr>embedding_successful := True, last_indexed := Some 7\<rparr>)
   \<and> file_hashes (indexed_info\<lparr>embedding_successful := False\<rparr>)
       = [(''x.py'', ''h1''), (''y.md'', ''h2'')]
   \<and> file_hashes (fresh_info\<lparr>embedding_successful := True, last_indexed := Some 7\<rparr>) = []
   \<and> num_files (indexed_info\<lparr>embedding_successful := False\<rparr>) = 2
   \<and> num_files (fresh_info\<lparr>embedding_successful := True, last_indexed := Some 7\<rparr>) = 0"
  by (simp add: run_defs sample_defs)

section \<open>Re-indexing after the commit changed\<close>



















section \<open>Runs on which the engine departs from its specification\<close>

text \<open>
  C1. The stage flags of a persisted state should form a chain: embedding only after chunking,
  chunking only after download; a run that resumes with only the embed stage left should
  persist all three flags set. The engine starts \<^verbatim>\<open>repo_info\<close> from the fetcher's fresh
  record and, with the commit hash unchanged, copies nothing from the existing state (lines
  81 and 94 to 132). On the resumed run below the one state it persists has
  \<^verbatim>\<open>embedding_successful\<close> set and the other two flags not set. On a first run in which a
  later file cannot be decoded, the last state persisted has \<^verbatim>\<open>chunking_successful\<close> not set
  (line 243) and \<^verbatim>\<open>embedding_successful\<close> set (line 276).
\<close>

theorem resumed_embed_persists_fresh_flags:
  "index_repository sample_env ''a/b'' False False False False resume_world
     = (Inr (fresh_info\<lparr>embedding_successful := True, last_indexed := Some 7\<rparr>),
        add_repository (fresh_info\<lparr>embedding_successful := True, last_indexed := Some 7\<rparr>)
          resume_world)
   \<and> embedding_successful (fresh_info\<lparr>embedding_successful := True, last_indexed := Some 7\<rparr>)
       = True
   \<and> chunking_successful (fresh_info\<lparr>embedding_successful := True, last_indexed := Some 7\<rparr>)
       = False
   \<and> download_successful (fresh_info\<lparr>embedding_successful := True, last_indexed := Some 7\<rparr>)
       = False
   \<and> last (persisted (run_calls empty_world
        (snd (index_repository late_decode_env ''a/b'' False False False False empty_world))))
       = fresh_info\<lparr>num_files := 2, num_chunks := 1, download_successful := True,
           chunking_successful := False, embedding_successful := True,
           last_indexed := Some 7, file_hashes := [(''x.py'', ''h1''), (''y.md'', ''h2'')]\<rparr>"
  by (simp add: run_defs sample_defs)

text \<open>
  C2. With the commit hash unchanged, the download done and the chunking not, the run should
  skip the download and chunk. The engine decides \<^verbatim>\<open>need_chunking\<close> (line 114 prints that it
  re-chunks), but \<^verbatim>\<open>repo_dir\<close> is only set by a download, so the test of line 212 fails: the
  run makes no call, persists nothing and returns the fetcher's fresh record.
\<close>

theorem failed_chunk_is_not_retried:
  "check_existing (get_repository ''a/b'' chunk_failed_world) fresh_info False False False False
     = Continue \<lparr>need_download = False, need_chunking = True, need_embedding = True\<rparr> fresh_info
   \<and> index_repository sample_env ''a/b'' False False False False chunk_failed_world
     = (Inr fresh_info, chunk_failed_world)"
  by (simp add: run_defs sample_defs)

text \<open>
  C6. A decode failure on one file should omit that file only. In the engine the handler of
  line 241 is around the whole loop: when \<^verbatim>\<open>x.py\<close> cannot be decoded the loop ends, \<^verbatim>\<open>y.md\<close> is
  never chunked and the state is persisted with \<^verbatim>\<open>chunking_successful = False\<close>; the exception
  is not raised again.
\<close>

theorem decode_error_ends_chunk_stage:
  "fst (index_repository decode_env ''a/b'' False False False False empty_world)
     = Inr (fresh_info\<lparr>num_files := 2, download_successful := True,
              file_hashes := [(''x.py'', ''h1''), (''y.md'', ''h2'')],
              chunking_successful := False\<rparr>)
   \<and> run_calls empty_world
        (snd (index_repository decode_env ''a/b'' False False False False empty_world))
     = [Mkdtemp, FetchContents,
        AddRepository (fresh_info\<lparr>num_files := 2, download_successful := True,
              file_hashes := [(''x.py'', ''h1''), (''y.md'', ''h2'')]\<rparr>),
        DeleteFileChunks ''a/b'' ''x.py'', ChunkFile ''x.py'',
        AddRepository (fresh_info\<lparr>num_files := 2, download_successful := True,
              file_hashes := [(''x.py'', ''h1''), (''y.md'', ''h2'')],
              chunking_successful := False\<rparr>),
        Rmtree]"
  by (simp add: run_defs sample_defs)

text \<open>
  C8. The scratch directory should be removed on every exit path. The engine removes it at
  line 288 only, after the embed stage; a run that raises from the download or from the embed
  stage never reaches that line and leaves the directory.
\<close>

theorem scratch_directory_left_after_raise:
  "fst (index_repository failing_env ''a/b'' False False False False empty_world)
     = Inl (Exception ''network'')
   \<and> temp_dirs (snd (index_repository failing_env ''a/b'' False False False False empty_world))
     = temp_dirs empty_world + 1
   \<and> run_calls empty_world
        (snd (index_repository failing_env ''a/b'' False False False False empty_world))
     = [Mkdtemp, FetchContents, AddRepository fresh_info]
   \<and> fst (index_repository embed_failing_env ''a/b'' False False False False empty_world)
     = Inl (Exception ''embedding'')
   \<and> temp_dirs
        (snd (index_repository embed_failing_env ''a/b'' False False False False empty_world))
     = temp_dirs empty_world + 1"
  by (simp add: run_defs sample_defs)

end
